theory Spec2Isabelle
  imports Complex_Main
begin

section \<open>Common conventions\<close>

text \<open>
  The two source files are \<^verbatim>\<open>beat_midi_converter.py\<close> (class \<^verbatim>\<open>BeatMidiConverter\<close>) and
  \<^verbatim>\<open>drum_loop_sampler.py\<close> (class \<^verbatim>\<open>DrumLoopSampler\<close>).

  Times in seconds are Python floats. They are modelled as \<^typ>\<open>real\<close>: every operation the
  modelled code applies to them (comparison, subtraction, addition, division, absolute value) is
  read with exact arithmetic. Python integers are \<^typ>\<open>int\<close>. Every exception the code can
  raise is a value \<open>Inl e\<close> of the result type.
\<close>

datatype py_error = ValueError | IndexError | ZeroDivisionError | TypeError

section \<open>\<^verbatim>\<open>BeatMidiConverter.merge_beats\<close>\<close>

text \<open>
  The function has two result shapes: the two early returns build a dictionary with the keys
  \<^verbatim>\<open>"beats"\<close>, \<^verbatim>\<open>"beat_positions"\<close>, \<^verbatim>\<open>"downbeats"\<close> (in this insertion order), the final
  return builds a 3-tuple.
\<close>

datatype merge_result =
    MergeDict "real list" "int list" "real list"
  | MergeTuple "real list" "int list" "real list"

text \<open>\<^verbatim>\<open>[1 if b in downbeats else 2 for b in beats]\<close>\<close>

definition fallback_positions :: "real list \<Rightarrow> real list \<Rightarrow> int list" where
  "fallback_positions downbeats beats = map (\<lambda>b. if b \<in> set downbeats then 1 else 2) beats"

text \<open>\<^verbatim>\<open>min(xs)\<close> and \<^verbatim>\<open>max(xs)\<close> on a non-empty list: a left-to-right scan.\<close>

definition py_min :: "'a::linorder list \<Rightarrow> 'a" where
  "py_min xs = foldl min (hd xs) (tl xs)"

definition py_max :: "'a::linorder list \<Rightarrow> 'a" where
  "py_max xs = foldl max (hd xs) (tl xs)"

text \<open>\<^verbatim>\<open>zip(beat2, range(1, len(beat2) + 1))\<close>\<close>

definition numbered :: "real list \<Rightarrow> (real \<times> int) list" where
  "numbered beat2 = zip beat2 (map int [1..<Suc (length beat2)])"

definition beat2_before :: "real list \<Rightarrow> real list \<Rightarrow> real \<Rightarrow> (real \<times> int) list" where
  "beat2_before beat1 beat2 tolerance =
     filter (\<lambda>(b, p). b < py_min beat1 - tolerance) (numbered beat2)"

definition beat2_after :: "real list \<Rightarrow> real list \<Rightarrow> real \<Rightarrow> (real \<times> int) list" where
  "beat2_after beat1 beat2 tolerance =
     filter (\<lambda>(b, p). b > py_max beat1 + tolerance) (numbered beat2)"

text \<open>
  \<^verbatim>\<open>merged_beats = beat2_before + list(zip(beat1, beat_positions1)) + beat2_after\<close> followed
  by the stable \<^verbatim>\<open>merged_beats.sort(key=lambda x: x[0])\<close>.
\<close>

definition merged_beats ::
  "real list \<Rightarrow> real list \<Rightarrow> int list \<Rightarrow> real \<Rightarrow> (real \<times> int) list" where
  "merged_beats beat1 beat2 beat_positions1 tolerance =
     sort_key fst
       (beat2_before beat1 beat2 tolerance @ zip beat1 beat_positions1
          @ beat2_after beat1 beat2 tolerance)"

text \<open>
  The greedy pass: \<^verbatim>\<open>filtered_beats = [merged_beats[0]]\<close>, then every later pair is appended
  when \<^verbatim>\<open>abs(beat - filtered_beats[-1][0]) > tolerance\<close>. The accumulator is never empty.
\<close>

definition keep_step :: "real \<Rightarrow> (real \<times> int) list \<Rightarrow> real \<times> int \<Rightarrow> (real \<times> int) list" where
  "keep_step tolerance filtered bp =
     (if \<bar>fst bp - fst (last filtered)\<bar> > tolerance then filtered @ [bp] else filtered)"

definition filtered_beats :: "real \<Rightarrow> (real \<times> int) list \<Rightarrow> py_error + (real \<times> int) list" where
  "filtered_beats tolerance merged =
     (case merged of
        [] \<Rightarrow> Inl IndexError
      | first # rest \<Rightarrow> Inr (foldl (keep_step tolerance) [first] rest))"

text \<open>The membership flags: 1 for a time found in either downbeat list, else 0.\<close>

definition downbeat_flags :: "real list \<Rightarrow> real list \<Rightarrow> real list \<Rightarrow> int list" where
  "downbeat_flags downbeats1 downbeats2 final_beats =
     map (\<lambda>beat. if beat \<in> set downbeats1 \<or> beat \<in> set downbeats2 then 1 else 0) final_beats"

text \<open>\<^verbatim>\<open>xs.index(v)\<close>: the first index holding \<open>v\<close>, ValueError when there is none.\<close>

fun py_index :: "'a list \<Rightarrow> 'a \<Rightarrow> py_error + nat" where
  "py_index [] v = Inl ValueError"
| "py_index (x # xs) v =
     (if x = v then Inr 0
      else (case py_index xs v of Inl e \<Rightarrow> Inl e | Inr n \<Rightarrow> Inr (Suc n)))"

text \<open>\<^verbatim>\<open>final_positions[: final_positions.index(1)].count(0)\<close>\<close>

definition num_start_beats_before_downbeat :: "int list \<Rightarrow> py_error + nat" where
  "num_start_beats_before_downbeat flags =
     (case py_index flags 1 of
        Inl e \<Rightarrow> Inl e
      | Inr idx \<Rightarrow> Inr (count_list (take idx flags) 0))"

text \<open>
  The renumbering loop. \<^verbatim>\<open>%\<close> on Python integers is the floored remainder, as \<open>mod\<close> on
  \<^typ>\<open>int\<close> is; a zero divisor raises.
\<close>

definition beat_num :: "int \<Rightarrow> int \<Rightarrow> nat \<Rightarrow> int" where
  "beat_num start_number num_beats_per_quarter i =
     (let n = (start_number + int i) mod num_beats_per_quarter
      in if n \<noteq> 0 then n else num_beats_per_quarter)"

definition renumber :: "int \<Rightarrow> int \<Rightarrow> nat \<Rightarrow> py_error + int list" where
  "renumber start_number num_beats_per_quarter len =
     (if len \<noteq> 0 \<and> num_beats_per_quarter = 0 then Inl ZeroDivisionError
      else Inr (map (beat_num start_number num_beats_per_quarter) [0..<len]))"

text \<open>\<^verbatim>\<open>[b for b, p in zip(final_beats, final_positions) if p == 1]\<close>\<close>

definition merged_downbeats :: "real list \<Rightarrow> int list \<Rightarrow> real list" where
  "merged_downbeats final_beats final_positions =
     map fst (filter (\<lambda>(b, p). p = 1) (zip final_beats final_positions))"

definition merge_beats ::
  "real list \<Rightarrow> real list \<Rightarrow> int list \<Rightarrow> real list \<Rightarrow> real list \<Rightarrow> real
     \<Rightarrow> py_error + merge_result" where
  "merge_beats beat1 beat2 beat_positions1 downbeats1 downbeats2 tolerance =
     (if beat1 = [] then
        Inr (MergeDict beat2 (fallback_positions downbeats2 beat2) downbeats2)
      else if beat2 = [] then
        Inr (MergeDict beat1 (fallback_positions downbeats1 beat1) downbeats1)
      else
        (case filtered_beats tolerance (merged_beats beat1 beat2 beat_positions1 tolerance) of
           Inl e \<Rightarrow> Inl e
         | Inr filtered \<Rightarrow>
             (let final_beats = map fst filtered;
                  flags = downbeat_flags downbeats1 downbeats2 final_beats
              in if beat_positions1 = [] then Inl ValueError
                 else
                   (case num_start_beats_before_downbeat flags of
                      Inl e \<Rightarrow> Inl e
                    | Inr k \<Rightarrow>
                        (let num_beats_per_quarter = py_max beat_positions1;
                             start_number = num_beats_per_quarter - int k + 1
                         in case renumber start_number num_beats_per_quarter (length flags) of
                              Inl e \<Rightarrow> Inl e
                            | Inr final_positions \<Rightarrow>
                                Inr (MergeTuple final_beats final_positions
                                       (merged_downbeats final_beats final_positions)))))))"


subsection \<open>The caller's unpacking in \<^verbatim>\<open>generate_midi\<close>\<close>

text \<open>
  \<^verbatim>\<open>merged_beats, beat_positions, downbeats = self.merge_beats(...)\<close> iterates over the
  result. Iterating over a dictionary yields its keys in insertion order; iterating over a tuple
  yields its components. The bound values are therefore strings in one case and lists in the other.
\<close>

datatype py_value = PyStr string | PyFloats "real list" | PyInts "int list"

definition merge_dict_keys :: "string list" where
  "merge_dict_keys = [''beats'', ''beat_positions'', ''downbeats'']"

fun unpack3 :: "merge_result \<Rightarrow> py_value \<times> py_value \<times> py_value" where
  "unpack3 (MergeDict beats positions downbeats) =
     (PyStr (merge_dict_keys ! 0), PyStr (merge_dict_keys ! 1), PyStr (merge_dict_keys ! 2))"
| "unpack3 (MergeTuple beats positions downbeats) =
     (PyFloats beats, PyInts positions, PyFloats downbeats)"

text \<open>
  The time of the first surviving event flagged as a downbeat, that is
  \<^verbatim>\<open>final_beats[final_positions.index(1)]\<close> read before the renumbering loop overwrites
  the flags. This is the event the renumbering is anchored at.
\<close>

definition first_downbeat_found ::
  "real list \<Rightarrow> real list \<Rightarrow> int list \<Rightarrow> real list \<Rightarrow> real list \<Rightarrow> real \<Rightarrow> py_error + real" where
  "first_downbeat_found beat1 beat2 beat_positions1 downbeats1 downbeats2 tolerance =
     (case filtered_beats tolerance (merged_beats beat1 beat2 beat_positions1 tolerance) of
        Inl e \<Rightarrow> Inl e
      | Inr filtered \<Rightarrow>
          (case py_index (downbeat_flags downbeats1 downbeats2 (map fst filtered)) 1 of
             Inl e \<Rightarrow> Inl e
           | Inr idx \<Rightarrow> Inr (map fst filtered ! idx)))"

section \<open>\<^verbatim>\<open>BeatMidiConverter.time_to_beat_position\<close>\<close>

text \<open>
  The \<^verbatim>\<open>for i, beat_time in enumerate(beats)\<close> loop from index \<open>i \<ge> 1\<close> on, with
  \<open>prev_beat_time = beats[i - 1]\<close> carried along. It returns at the first beat that is at or
  after the queried time; \<open>None\<close> means the loop ran to its end.
\<close>

fun scan_beats :: "real \<Rightarrow> nat \<Rightarrow> real \<Rightarrow> real list \<Rightarrow> real option" where
  "scan_beats time_seconds i prev_beat_time [] = None"
| "scan_beats time_seconds i prev_beat_time (beat_time # rest) =
     (if beat_time \<ge> time_seconds then
        (let beat_interval = beat_time - prev_beat_time
         in if beat_interval > 0
            then Some (real i + (time_seconds - prev_beat_time) / beat_interval)
            else Some (real i))
      else scan_beats time_seconds (Suc i) beat_time rest)"

definition time_to_beat_position :: "real \<Rightarrow> real list \<Rightarrow> real" where
  "time_to_beat_position time_seconds beats =
     (case beats of
        [] \<Rightarrow> 0
      | first # rest \<Rightarrow>
          if first \<ge> time_seconds then 0
          else
            (case scan_beats time_seconds 1 first rest of
               Some position \<Rightarrow> position
             | None \<Rightarrow>
                 (if length beats \<ge> 2
                     \<and> last beats - beats ! (length beats - 2) > 0
                  then real (length beats)
                         + (time_seconds - last beats) / (last beats - beats ! (length beats - 2))
                  else real (length beats))))"

section \<open>MIDI messages\<close>

text \<open>
  The messages the two files build or read through the \<^verbatim>\<open>mido\<close> library. Every message
  carries its delta time in ticks as the last argument. \<^verbatim>\<open>mido\<close> itself (file encoding, range
  checks of message fields) is outside the modelled code.
\<close>

datatype midi_message =
    TrackName string int
  | TimeSignature int int int
  | SetTempo int int
  | Marker string int
  | EndOfTrack int
  | NoteMessage string int int int

fun msg_time :: "midi_message \<Rightarrow> int" where
  "msg_time (TrackName name t) = t"
| "msg_time (TimeSignature numerator denominator t) = t"
| "msg_time (SetTempo tempo t) = t"
| "msg_time (Marker label t) = t"
| "msg_time (EndOfTrack t) = t"
| "msg_time (NoteMessage ty note velocity t) = t"

text \<open>\<^verbatim>\<open>sum(m.time for m in track if hasattr(m, "time"))\<close>: every message has a time.\<close>

definition sum_times :: "midi_message list \<Rightarrow> int" where
  "sum_times track = sum_list (map msg_time track)"

text \<open>
  The tempo events of a track as \<open>(absolute tick, microseconds per beat)\<close>: the absolute tick of
  a message is the sum of the delta times up to and including its own.
\<close>

fun tempo_events_from :: "int \<Rightarrow> midi_message list \<Rightarrow> (int \<times> int) list" where
  "tempo_events_from tick [] = []"
| "tempo_events_from tick (SetTempo tempo t # ms) =
     (tick + t, tempo) # tempo_events_from (tick + t) ms"
| "tempo_events_from tick (m # ms) = tempo_events_from (tick + msg_time m) ms"

definition tempo_events :: "midi_message list \<Rightarrow> (int \<times> int) list" where
  "tempo_events track = tempo_events_from 0 track"

section \<open>\<^verbatim>\<open>BeatMidiConverter.create_tempo_track\<close>\<close>

text \<open>\<^verbatim>\<open>int(x)\<close> on a float truncates toward zero.\<close>

definition py_int :: "real \<Rightarrow> int" where
  "py_int x = (if x \<ge> 0 then \<lfloor>x\<rfloor> else \<lceil>x\<rceil>)"

text \<open>\<^verbatim>\<open>bpm = 60.0 / interval; tempo = int(60_000_000 / bpm)\<close>, reached only with a positive interval.\<close>

definition tempo_of :: "real \<Rightarrow> int" where
  "tempo_of interval = (let bpm = 60 / interval in py_int (60000000 / bpm))"

text \<open>One iteration of \<^verbatim>\<open>for i in range(1, len(beats))\<close>.\<close>

definition tempo_step :: "int \<Rightarrow> int \<Rightarrow> real list \<Rightarrow> midi_message list \<Rightarrow> nat \<Rightarrow> midi_message list" where
  "tempo_step ticks_per_beat current_tick beats track i =
     (let tick = current_tick + (int i - 1) * ticks_per_beat;
          delta_ticks = tick - sum_times track;
          interval = beats ! i - beats ! (i - 1)
      in if interval \<le> 0 then track
         else track @ [SetTempo (tempo_of interval) delta_ticks])"

definition create_tempo_track :: "int \<Rightarrow> real list \<Rightarrow> py_error + midi_message list" where
  "create_tempo_track ticks_per_beat beats =
     (if beats = [] then Inl IndexError
      else
        (let track0 = [TrackName ''Tempo Track'' 0];
             real_start_time = beats ! 0;
             track1 = (if real_start_time > 0
                       then track0 @ [SetTempo (tempo_of real_start_time) 0] else track0);
             current_tick = (if real_start_time > 0 then ticks_per_beat else 0);
             track2 = foldl (tempo_step ticks_per_beat current_tick beats) track1
                        [1..<length beats]
         in Inr (track2 @ [EndOfTrack 0])))"

text \<open>
  The positive reals a tempo value is computed from: the first beat time (for the lead-in)
  and the differences of consecutive beats. The loop invariant of \<^verbatim>\<open>create_tempo_track\<close>
  before iteration \<open>n\<close>: no delta time is negative, the deltas emitted so far sum to at most
  the tick of iteration \<open>n\<close>, the tempo events are in ascending tick order, and every tempo
  value comes from a positive interval.
\<close>

definition interval_source :: "real list \<Rightarrow> real \<Rightarrow> bool" where
  "interval_source beats x =
     (x = beats ! 0 \<or> (\<exists>i. 1 \<le> i \<and> i < length beats \<and> x = beats ! i - beats ! (i - 1)))"

definition tempo_track_inv :: "int \<Rightarrow> int \<Rightarrow> real list \<Rightarrow> nat \<Rightarrow> midi_message list \<Rightarrow> bool" where
  "tempo_track_inv ticks_per_beat current_tick beats n track =
     ((\<forall>m \<in> set track. 0 \<le> msg_time m)
      \<and> sum_times track \<le> current_tick + (int n - 1) * ticks_per_beat
      \<and> sorted (map fst (tempo_events track))
      \<and> (\<forall>e \<in> set (tempo_events track).
            \<exists>x. 0 < x \<and> interval_source beats x \<and> snd e = tempo_of x))"

section \<open>\<^verbatim>\<open>DrumLoopSampler\<close>\<close>

text \<open>
  \<^verbatim>\<open>extract_drum_events\<close> turns every note message of a loop file into a dictionary with the
  keys \<^verbatim>\<open>"time"\<close>, \<^verbatim>\<open>"note"\<close>, \<^verbatim>\<open>"velocity"\<close>, \<^verbatim>\<open>"type"\<close>. A fragment is a Python list of such
  dictionaries, and \<^verbatim>\<open>for event in drum_event\<close> binds \<^verbatim>\<open>event\<close> to the dictionary object itself.
  The dictionaries therefore live in an explicit store, addressed by natural numbers; a
  fragment is the list of the addresses of its events and the library holds fragments.
\<close>

record drum_event =
  ev_time :: int
  ev_note :: int
  ev_velocity :: int
  ev_type :: string

type_synonym event_store = "nat \<Rightarrow> drum_event"

type_synonym fragment = "nat list"

text \<open>
  \<^verbatim>\<open>all_drum_events\<close>: the categories \<^verbatim>\<open>["start"]\<close>, \<^verbatim>\<open>["mid"]["regular"]\<close>,
  \<^verbatim>\<open>["mid"]["transition"]["small"]\<close>, \<^verbatim>\<open>["mid"]["transition"]["big"]\<close> and \<^verbatim>\<open>["end"]\<close>. Filling
  it from the loop folder is file-system work and is taken as given.
\<close>

record fragment_library =
  lib_start :: "fragment list"
  lib_regular :: "fragment list"
  lib_small :: "fragment list"
  lib_big :: "fragment list"
  lib_end :: "fragment list"

text \<open>The contents of a fragment, read through the store.\<close>

definition fragment_events :: "event_store \<Rightarrow> fragment \<Rightarrow> drum_event list" where
  "fragment_events store frag = map store frag"

text \<open>
  \<^verbatim>\<open>get_target_beats\<close>: \<^verbatim>\<open>current_time\<close> starts at 480 and runs on across all tracks; only
  \<^verbatim>\<open>set_tempo\<close> messages advance it and add a beat.
\<close>

fun target_beats_from :: "int \<Rightarrow> midi_message list \<Rightarrow> int list" where
  "target_beats_from current_time [] = []"
| "target_beats_from current_time (SetTempo tempo t # ms) =
     (current_time + t) # target_beats_from (current_time + t) ms"
| "target_beats_from current_time (m # ms) = target_beats_from current_time ms"

definition get_target_beats :: "midi_message list list \<Rightarrow> int list" where
  "get_target_beats tracks = target_beats_from 480 (concat tracks)"

text \<open>
  \<^verbatim>\<open>random.choice(seq)\<close> raises IndexError on an empty sequence and otherwise returns the
  element at some index below the length; the index is taken from the draw \<open>r\<close>.
\<close>

definition py_choice :: "nat \<Rightarrow> 'a list \<Rightarrow> py_error + 'a" where
  "py_choice r seq = (if seq = [] then Inl IndexError else Inr (seq ! (r mod length seq)))"

text \<open>
  \<^verbatim>\<open>mido.Message(event["type"], note=event["note"], velocity=event["velocity"],
  time=event["time"])\<close> copies the four values out of the dictionary.
\<close>

definition to_message :: "event_store \<Rightarrow> nat \<Rightarrow> midi_message" where
  "to_message store a =
     NoteMessage (ev_type (store a)) (ev_note (store a)) (ev_velocity (store a))
       (ev_time (store a))"

text \<open>
  The inner loop of the start region. \<^verbatim>\<open>event["time"] += 480 * (prefix_beat + 1)\<close> writes to
  the dictionary the library holds, while the track is still empty.
\<close>

fun emit_start ::
  "int \<Rightarrow> fragment \<Rightarrow> event_store \<times> midi_message list \<Rightarrow> event_store \<times> midi_message list" where
  "emit_start prefix_beat [] (store, track) = (store, track)"
| "emit_start prefix_beat (a # rest) (store, track) =
     (let store' =
            (if length track = 0
             then store(a := (store a)\<lparr>ev_time := ev_time (store a) + 480 * (prefix_beat + 1)\<rparr>)
             else store)
      in emit_start prefix_beat rest (store', track @ [to_message store' a]))"

definition mid_sampling_order :: "string list" where
  "mid_sampling_order = [''regular'', ''transition-small'', ''regular'', ''transition-big'']"

definition mid_category :: "fragment_library \<Rightarrow> string \<Rightarrow> fragment list" where
  "mid_category lib current_mid_type =
     (if current_mid_type = ''regular'' then lib_regular lib
      else if current_mid_type = ''transition-small'' then lib_small lib
      else lib_big lib)"

text \<open>
  The \<^verbatim>\<open>while current_beat_idx < total_beats - end_loop_length\<close> loop; \<open>bound\<close> is the right-hand
  side. The loop need not terminate (the step \<open>mid_loop_length\<close> is \<open>2 * beats_per_bar\<close>, which
  the constructor does not restrict), so it is a partial function: \<open>None\<close> is divergence.
  \<open>draws\<close> counts the calls of \<^verbatim>\<open>random.choice\<close> so far and \<open>rng\<close> gives the value of each draw.
\<close>

partial_function (option) mid_loop ::
  "fragment_library \<Rightarrow> event_store \<Rightarrow> (nat \<Rightarrow> nat) \<Rightarrow> int \<Rightarrow> int \<Rightarrow> int \<Rightarrow> nat \<Rightarrow> nat
     \<Rightarrow> midi_message list \<Rightarrow> (py_error + int \<times> nat \<times> midi_message list) option" where
  "mid_loop lib store rng mid_loop_length bound current_beat_idx mid_order_index draws track =
     (if current_beat_idx < bound then
        (case py_choice (rng draws)
                (mid_category lib
                   (mid_sampling_order ! (mid_order_index mod length mid_sampling_order))) of
           Inl e \<Rightarrow> Some (Inl e)
         | Inr drum_events \<Rightarrow>
             mid_loop lib store rng mid_loop_length bound (current_beat_idx + mid_loop_length)
               (mid_order_index + 1) (draws + 1) (track @ map (to_message store) drum_events))
      else Some (Inr (current_beat_idx, draws, track)))"

text \<open>
  \<^verbatim>\<open>sample_drum_loops\<close> from the point where the library is loaded. The new, empty drum track
  is appended to the target's tracks before \<^verbatim>\<open>get_target_beats\<close> reads them. The result is the
  drum track that is saved with the target, together with the store as the call leaves it.
\<close>

definition sample_drum_loops ::
  "int \<Rightarrow> (nat \<Rightarrow> nat) \<Rightarrow> midi_message list list \<Rightarrow> fragment_library \<Rightarrow> event_store \<Rightarrow> int
     \<Rightarrow> (py_error + midi_message list \<times> event_store) option" where
  "sample_drum_loops beats_per_bar rng tracks lib store prefix_beat =
     (let target_beats = get_target_beats (tracks @ [[]]);
          total_beats = int (length target_beats);
          start_loop_length = beats_per_bar * 4 + prefix_beat + 1;
          mid_loop_length = beats_per_bar * 2;
          end_loop_length = beats_per_bar * 5;
          started =
            (if 0 < start_loop_length then
               (case py_choice (rng 0) (lib_start lib) of
                  Inl e \<Rightarrow> Inl e
                | Inr drum_event \<Rightarrow>
                    Inr (emit_start prefix_beat drum_event (store, []), start_loop_length, 1))
             else Inr ((store, []), 0, 0))
      in case started of
           Inl e \<Rightarrow> Some (Inl e)
         | Inr ((store1, track1), current_beat_idx1, draws1) \<Rightarrow>
             (case mid_loop lib store1 rng mid_loop_length (total_beats - end_loop_length)
                     current_beat_idx1 0 draws1 track1 of
                None \<Rightarrow> None
              | Some (Inl e) \<Rightarrow> Some (Inl e)
              | Some (Inr (current_beat_idx2, draws2, track2)) \<Rightarrow>
                  (if current_beat_idx2 < total_beats then
                     (case py_choice (rng draws2) (lib_end lib) of
                        Inl e \<Rightarrow> Some (Inl e)
                      | Inr drum_event \<Rightarrow>
                          Some (Inr (track2 @ map (to_message store1) drum_event, store1)))
                   else Some (Inr (track2, store1)))))"

text \<open>A small library for concrete runs: one single-event fragment per category.\<close>

definition demo_store :: event_store where
  "demo_store = (\<lambda>a. \<lparr>ev_time = 0, ev_note = 36 + int a, ev_velocity = 100, ev_type = ''note_on''\<rparr>)"

definition demo_library :: fragment_library where
  "demo_library =
     \<lparr>lib_start = [[0]], lib_regular = [[1]], lib_small = [[2]], lib_big = [[3]], lib_end = [[4]]\<rparr>"

text \<open>
  A target file as \<^verbatim>\<open>generate_midi\<close> writes it: a time-signature track and a tempo track with
  twelve tempo events.
\<close>

definition demo_target :: "midi_message list list" where
  "demo_target =
     [[TimeSignature 4 4 0],
      [TrackName ''Tempo Track'' 0,
       SetTempo 500000 0, SetTempo 500000 480, SetTempo 500000 480, SetTempo 500000 480,
       SetTempo 500000 480, SetTempo 500000 480, SetTempo 500000 480, SetTempo 500000 480,
       SetTempo 500000 480, SetTempo 500000 480, SetTempo 500000 480, SetTempo 500000 480,
       EndOfTrack 0]]"

text \<open>
  The position formula as claim C1 words it, \<open>((beatsPerBar - k + i) mod beatsPerBar)\<close> with a
  result of 0 mapped to \<open>beatsPerBar\<close>. It follows the specification's sentence, not the source,
  and is only compared with what the source computes.
\<close>

definition spec_position :: "int \<Rightarrow> nat \<Rightarrow> nat \<Rightarrow> int" where
  "spec_position beatsPerBar k i =
     (let n = (beatsPerBar - int k + int i) mod beatsPerBar in if n = 0 then beatsPerBar else n)"

text \<open>
  Two times in ascending order that are more than the tolerance apart. The relation is
  transitive; the greedy pass establishes it between each kept event and the next.
\<close>

definition apart :: "real \<Rightarrow> real \<Rightarrow> real \<Rightarrow> bool" where
  "apart tolerance a b = (a \<le> b \<and> tolerance < b - a)"

section \<open>Properties of the merge\<close>

lemmas merge_eval = merge_beats_def fallback_positions_def py_min_def py_max_def numbered_def
  beat2_before_def beat2_after_def merged_beats_def keep_step_def filtered_beats_def
  downbeat_flags_def num_start_beats_before_downbeat_def beat_num_def renumber_def
  merged_downbeats_def first_downbeat_found_def

subsection \<open>Auxiliary facts\<close>

lemma py_index_bound: "py_index xs v = Inr n \<Longrightarrow> n < length xs \<and> xs ! n = v"
  by (induction xs arbitrary: n) (auto split: if_splits sum.splits)

lemma py_index_before: "py_index xs v = Inr n \<Longrightarrow> i < n \<Longrightarrow> xs ! i \<noteq> v"
proof (induction xs arbitrary: n i)
  case Nil
  then show ?case by simp
next
  case (Cons x xs)
  then show ?case
    by (cases i) (auto split: if_splits sum.splits)
qed

lemma count_zero_before_first_one:
  "py_index (downbeat_flags d1 d2 bs) 1 = Inr n \<Longrightarrow>
   count_list (take n (downbeat_flags d1 d2 bs)) 0 = n"
proof (induction bs arbitrary: n)
  case Nil
  then show ?case by (simp add: downbeat_flags_def)
next
  case (Cons b bs)
  then show ?case
    by (auto simp: downbeat_flags_def split: if_splits sum.splits)
qed

lemma num_start_is_index:
  "num_start_beats_before_downbeat (downbeat_flags d1 d2 bs) = Inr k \<Longrightarrow>
   py_index (downbeat_flags d1 d2 bs) 1 = Inr k"
  by (auto simp: num_start_beats_before_downbeat_def count_zero_before_first_one split: sum.splits)

lemma merge_tuple_unfold:
  assumes "beat1 \<noteq> []" "beat2 \<noteq> []"
    and "merge_beats beat1 beat2 p1 d1 d2 tol = Inr r"
  shows "\<exists>filtered k.
           filtered_beats tol (merged_beats beat1 beat2 p1 tol) = Inr filtered
         \<and> p1 \<noteq> []
         \<and> num_start_beats_before_downbeat (downbeat_flags d1 d2 (map fst filtered)) = Inr k
         \<and> r = MergeTuple (map fst filtered)
                 (map (beat_num (py_max p1 - int k + 1) (py_max p1)) [0..<length filtered])
                 (merged_downbeats (map fst filtered)
                    (map (beat_num (py_max p1 - int k + 1) (py_max p1)) [0..<length filtered]))"
  using assms
  by (auto simp: merge_beats_def Let_def renumber_def downbeat_flags_def
      split: sum.splits if_splits)


lemma foldl_keep_step_nonempty: "acc \<noteq> [] \<Longrightarrow> foldl (keep_step tol) acc rest \<noteq> []"
  by (induction rest arbitrary: acc) (auto simp: keep_step_def)

lemma apart_last:
  assumes "acc \<noteq> []" "sorted_wrt (apart tol) (map fst acc)" "a \<in> set acc"
  shows "fst a \<le> fst (last acc)"
  using assms
proof (induction acc rule: rev_induct)
  case Nil
  then show ?case by simp
next
  case (snoc x xs)
  then show ?case
    by (auto simp: sorted_wrt_append apart_def)
qed

lemma foldl_keep_step_apart:
  assumes "acc \<noteq> []" "sorted_wrt (apart tol) (map fst acc)"
    and "\<forall>x \<in> set rest. fst (last acc) \<le> fst x" "sorted (map fst rest)"
  shows "sorted_wrt (apart tol) (map fst (foldl (keep_step tol) acc rest))"
  using assms
proof (induction rest arbitrary: acc)
  case Nil
  then show ?case by simp
next
  case (Cons bp rest)
  show ?case
  proof (cases "\<bar>fst bp - fst (last acc)\<bar> > tol")
    case True
    have le: "fst (last acc) \<le> fst bp" using Cons.prems(3) by simp
    have gap: "tol < fst bp - fst (last acc)" using True le by simp
    have all: "\<forall>a \<in> set acc. apart tol (fst a) (fst bp)"
    proof
      fix a assume "a \<in> set acc"
      then have "fst a \<le> fst (last acc)"
        using apart_last [OF Cons.prems(1) Cons.prems(2)] by blast
      then show "apart tol (fst a) (fst bp)" using le gap by (simp add: apart_def)
    qed
    have s: "sorted_wrt (apart tol) (map fst (acc @ [bp]))"
      using Cons.prems(2) all by (simp add: sorted_wrt_append)
    have r: "\<forall>x \<in> set rest. fst (last (acc @ [bp])) \<le> fst x"
      using Cons.prems(4) by simp
    have "sorted_wrt (apart tol) (map fst (foldl (keep_step tol) (acc @ [bp]) rest))"
      using Cons.IH [of "acc @ [bp]"] s r Cons.prems(4) by simp
    moreover have "keep_step tol acc bp = acc @ [bp]"
      using True by (simp add: keep_step_def)
    ultimately show ?thesis by simp
  next
    case False
    have "sorted_wrt (apart tol) (map fst (foldl (keep_step tol) acc rest))"
      using Cons.IH [of acc] Cons.prems by simp
    moreover have "keep_step tol acc bp = acc"
      using False by (simp add: keep_step_def)
    ultimately show ?thesis by simp
  qed
qed

lemma filtered_beats_apart:
  assumes "filtered_beats tol (sort_key fst xs) = Inr f"
  shows "sorted_wrt (apart tol) (map fst f)"
proof (cases "sort_key fst xs")
  case Nil
  then show ?thesis using assms by (simp add: filtered_beats_def)
next
  case (Cons first rest)
  have "sorted (map fst (sort_key fst xs))" by (rule sorted_sort_key)
  then have s: "sorted (map fst (first # rest))" using Cons by simp
  have "sorted_wrt (apart tol) (map fst (foldl (keep_step tol) [first] rest))"
    using s by (intro foldl_keep_step_apart) auto
  then show ?thesis using assms Cons by (simp add: filtered_beats_def)
qed

lemma sorted_wrt_apart_nth:
  "sorted_wrt (apart tol) xs \<Longrightarrow> i < j \<Longrightarrow> j < length xs \<Longrightarrow>
   xs ! i \<le> xs ! j \<and> tol < xs ! j - xs ! i"
  by (auto simp: sorted_wrt_iff_nth_less apart_def)

lemma sorted_wrt_apart_strict:
  "sorted_wrt (apart tol) xs \<Longrightarrow> 0 \<le> tol \<Longrightarrow> sorted_wrt (<) xs"
  by (rule sorted_wrt_mono_rel [of xs "apart tol"]) (auto simp: apart_def)

subsection \<open>The concrete scenario\<close>

text \<open>
  Claim C2, as stated, says that in the scenario (primary beats 1.0, 1.5, 2.0 with positions
  1, 2, 3 and downbeat 1.0; secondary beats 0.0 to 3.0 in steps of 0.5 with downbeat 0.0;
  tolerance 0.3) the renumbering is anchored at the first downbeat found at time 1.0. On the
  code the first surviving event flagged as a downbeat is the one at time 0.0: it survives
  as a "before" event and it is a member of the secondary downbeat list.
\<close>

theorem scenario_anchor_counterexample:
  "first_downbeat_found [1, 3/2, 2] [0, 1/2, 1, 3/2, 2, 5/2, 3] [1, 2, 3] [1] [0] (3/10)
     \<noteq> Inr 1"
  by (simp add: merge_eval)

text \<open>
  Claim C2, amended: in the scenario the secondary events 0.0 and 0.5 are the "before" part,
  2.5 and 3.0 are the "after" part, the deduplicated merge retains all of
  0.0, 0.5, 1.0, 1.5, 2.0, 2.5, 3.0, and the positions are renumbered cyclically anchored at
  the first downbeat found, which is at time 0.0 (the secondary's downbeat): the positions are
  1, 2, 3, 1, 2, 3, 1 and the resulting downbeats are 0.0, 1.5, 3.0.
\<close>

theorem scenario_merge:
  "beat2_before [1, 3/2, 2] [0, 1/2, 1, 3/2, 2, 5/2, 3] (3/10) = [(0, 1), (1/2, 2)]
   \<and> beat2_after [1, 3/2, 2] [0, 1/2, 1, 3/2, 2, 5/2, 3] (3/10) = [(5/2, 6), (3, 7)]
   \<and> merge_beats [1, 3/2, 2] [0, 1/2, 1, 3/2, 2, 5/2, 3] [1, 2, 3] [1] [0] (3/10)
       = Inr (MergeTuple [0, 1/2, 1, 3/2, 2, 5/2, 3] [1, 2, 3, 1, 2, 3, 1] [0, 3/2, 3])
   \<and> first_downbeat_found [1, 3/2, 2] [0, 1/2, 1, 3/2, 2, 5/2, 3] [1, 2, 3] [1] [0] (3/10)
       = Inr 0"
  by (simp add: merge_eval)

subsection \<open>Empty secondary timeline\<close>

text \<open>
  Claim C4, as stated, says that merging a non-empty primary timeline with an empty secondary
  one returns the primary's original positions. For primary beats 1.0, 1.5, 2.0 with positions
  1, 2, 3 and downbeat 1.0 the code returns the positions 1, 2, 2.
\<close>

theorem merge_empty_secondary_counterexample:
  "merge_beats [1, 3/2, 2] [] [1, 2, 3] [1] [] (3/10) = Inr (MergeDict [1, 3/2, 2] [1, 2, 2] [1])
   \<and> [1, 2, 2] \<noteq> [1, 2, (3::int)]"
  by (simp add: merge_eval)

text \<open>
  Claim C4, amended: for every non-empty primary timeline, merging it with an empty secondary
  timeline returns the primary beats and the primary downbeats verbatim, and regenerates the
  positions: 1 for a beat that is a member of the primary downbeats, 2 for every other beat.
\<close>

theorem merge_empty_secondary:
  "beat1 \<noteq> [] \<Longrightarrow>
   merge_beats beat1 [] beat_positions1 downbeats1 downbeats2 tolerance
     = Inr (MergeDict beat1 (map (\<lambda>b. if b \<in> set downbeats1 then 1 else 2) beat1) downbeats1)"
  by (simp add: merge_beats_def fallback_positions_def)

text \<open>Witness for C4: the primary timeline 1.0, 1.5, 2.0 with downbeat 1.0.\<close>

theorem merge_empty_secondary_witness:
  "[1, 3/2, 2] \<noteq> ([]::real list)
   \<and> merge_beats [1, 3/2, 2] [] [1, 2, 3] [1] [] (3/10) = Inr (MergeDict [1, 3/2, 2] [1, 2, 2] [1])"
  using merge_empty_secondary [of "[1, 3/2, 2]" "[1, 2, 3]" "[1]" "[]" "3/10"]
  by simp

subsection \<open>A merge that raises\<close>

text \<open>
  Claim C5 says that the merge raises no exception on well-formed non-empty inputs. The
  primary timeline below runs at 240 beats per minute (beats 1.0, 1.25, 1.5, 1.75 with
  positions 4, 1, 2, 3 and downbeat 1.25), the secondary timeline is 1.0, 1.25 with downbeat
  1.25, and the tolerance is the default 0.3. The greedy pass drops 1.25 and 1.75, no
  surviving time is in a downbeat list, and \<^verbatim>\<open>final_positions.index(1)\<close> raises ValueError.
\<close>

theorem merge_raises_without_surviving_downbeat:
  "merge_beats [1, 5/4, 3/2, 7/4] [1, 5/4] [4, 1, 2, 3] [5/4] [5/4] (3/10) = Inl ValueError"
  by (simp add: merge_eval)

subsection \<open>Result shapes\<close>

text \<open>
  Claim C10: whenever either input beat list is empty the merge returns the dictionary shape,
  whenever both are non-empty every returned result is the 3-tuple shape, and the caller's
  3-way unpacking of a dictionary result binds the three key strings rather than the lists.
\<close>

theorem merge_result_shapes:
  "(beat1 = [] \<or> beat2 = [] \<longrightarrow>
      (\<exists>b p d. merge_beats beat1 beat2 beat_positions1 downbeats1 downbeats2 tolerance
                  = Inr (MergeDict b p d)
               \<and> unpack3 (MergeDict b p d)
                  = (PyStr ''beats'', PyStr ''beat_positions'', PyStr ''downbeats'')))
   \<and> (beat1 \<noteq> [] \<and> beat2 \<noteq> [] \<longrightarrow>
        (\<forall>r. merge_beats beat1 beat2 beat_positions1 downbeats1 downbeats2 tolerance = Inr r \<longrightarrow>
           (\<exists>b p d. r = MergeTuple b p d
                    \<and> unpack3 r = (PyFloats b, PyInts p, PyFloats d))))"
  by (auto simp: merge_beats_def merge_dict_keys_def Let_def split: sum.splits if_splits)

text \<open>
  Witness for C10: an empty primary list gives a dictionary, whose unpacking binds the keys;
  the scenario's two non-empty lists give a tuple, whose unpacking binds the lists.
\<close>

theorem merge_result_shapes_witness:
  "merge_beats [] [0, 1/2] [] [] [0] (3/10) = Inr (MergeDict [0, 1/2] [1, 2] [0])
   \<and> unpack3 (MergeDict [0, 1/2] [1, 2] [0])
       = (PyStr ''beats'', PyStr ''beat_positions'', PyStr ''downbeats'')
   \<and> unpack3 (MergeTuple [0, 1/2, 1, 3/2, 2] [2, 3, 1, 2, 3] [1])
       = (PyFloats [0, 1/2, 1, 3/2, 2], PyInts [2, 3, 1, 2, 3], PyFloats [1])
   \<and> merge_beats [1, 3/2, 2] [0, 1/2] [1, 2, 3] [1] [] (3/10)
       = Inr (MergeTuple [0, 1/2, 1, 3/2, 2] [2, 3, 1, 2, 3] [1])"
  using merge_result_shapes [of "[]" "[0, 1/2]" "[]" "[]" "[0]" "3/10"]
    merge_result_shapes [of "[1, 3/2, 2]" "[0, 1/2]" "[1, 2, 3]" "[1]" "[]" "3/10"]
  by (simp add: merge_eval merge_dict_keys_def)

subsection \<open>Renumbering\<close>

text \<open>
  Claim C1, as stated, gives the position at index \<open>i\<close> as \<open>(beatsPerBar - k + i) mod beatsPerBar\<close>
  (0 mapped to \<open>beatsPerBar\<close>). For primary beats 1.0, 1.5, 2.0 with positions 1, 2, 3 and
  downbeat 1.0, secondary beats 0.0, 0.5 and tolerance 0.3, the code finds \<open>k = 2\<close> and
  \<open>beatsPerBar = 3\<close> and assigns position 2 to index 0, where the stated formula gives 1.
\<close>

theorem merge_positions_counterexample:
  "merge_beats [1, 3/2, 2] [0, 1/2] [1, 2, 3] [1] [] (3/10)
       = Inr (MergeTuple [0, 1/2, 1, 3/2, 2] [2, 3, 1, 2, 3] [1])
   \<and> num_start_beats_before_downbeat (downbeat_flags [1] [] [0, 1/2, 1, 3/2, 2]) = Inr 2
   \<and> py_max [1, 2, 3] = (3::int)
   \<and> [2, 3, 1, 2, 3] ! 0 \<noteq> spec_position 3 2 0"
  by (simp add: merge_eval spec_position_def)

text \<open>
  Claim C1, amended: in a non-degenerate merge (both input beat lists non-empty) that returns,
  with \<open>k\<close> the count of non-downbeat events before the first surviving event flagged as a
  downbeat (which is also that event's index) and \<open>beatsPerBar\<close> the maximum of the primary's
  positions, every surviving event at index \<open>i\<close> (from 0) is assigned the position
  \<open>(beatsPerBar - k + 1 + i) mod beatsPerBar\<close>, with a result of 0 mapped to \<open>beatsPerBar\<close>.
\<close>

theorem merge_beats_positions:
  assumes "beat1 \<noteq> []" "beat2 \<noteq> []"
    and "merge_beats beat1 beat2 beat_positions1 downbeats1 downbeats2 tolerance
           = Inr (MergeTuple final_beats final_positions downbeats)"
  shows "\<exists>k. py_index (downbeat_flags downbeats1 downbeats2 final_beats) 1 = Inr k
             \<and> num_start_beats_before_downbeat
                  (downbeat_flags downbeats1 downbeats2 final_beats) = Inr k
             \<and> length final_positions = length final_beats
             \<and> (\<forall>i < length final_beats.
                   final_positions ! i =
                     (let n = (py_max beat_positions1 - int k + 1 + int i)
                                mod py_max beat_positions1
                      in if n = 0 then py_max beat_positions1 else n))"
proof -
  obtain filtered :: "(real \<times> int) list" and k where
    k: "num_start_beats_before_downbeat
              (downbeat_flags downbeats1 downbeats2 (map fst filtered)) = Inr k"
    and r: "MergeTuple final_beats final_positions downbeats =
        MergeTuple (map fst filtered)
          (map (beat_num (py_max beat_positions1 - int k + 1) (py_max beat_positions1))
             [0..<length filtered])
          (merged_downbeats (map fst filtered)
             (map (beat_num (py_max beat_positions1 - int k + 1) (py_max beat_positions1))
                [0..<length filtered]))"
    using merge_tuple_unfold [OF assms] by (elim exE conjE) (rule that; assumption)
  have fb: "final_beats = map fst filtered" using r by simp
  have fp: "final_positions =
        map (beat_num (py_max beat_positions1 - int k + 1) (py_max beat_positions1))
          [0..<length filtered]"
    using r by simp
  have "py_index (downbeat_flags downbeats1 downbeats2 final_beats) 1 = Inr k"
    using k fb num_start_is_index by simp
  moreover have "length final_positions = length final_beats"
    using fp fb by simp
  moreover have "\<forall>i < length final_beats.
                   final_positions ! i =
                     (let n = (py_max beat_positions1 - int k + 1 + int i)
                                mod py_max beat_positions1
                      in if n = 0 then py_max beat_positions1 else n)"
    using fp fb by (simp add: beat_num_def Let_def)
  ultimately show ?thesis using k fb by blast
qed

text \<open>
  Witness for C1: the merge of primary 1.0, 1.5, 2.0 (positions 1, 2, 3, downbeat 1.0) with
  secondary 0.0, 0.5 has \<open>k = 2\<close> and positions 2, 3, 1, 2, 3.
\<close>

theorem merge_beats_positions_witness:
  "py_index (downbeat_flags [1] [] [0, 1/2, 1, 3/2, 2]) 1 = Inr 2
   \<and> [2, 3, 1, 2, 3] ! 0 = (3 - 2 + 1 + 0) mod (3::int)
   \<and> [2, 3, 1, 2, 3] ! 2 = (3 - 2 + 1 + 2) mod (3::int)"
  using merge_beats_positions [of "[1, 3/2, 2]" "[0, 1/2]" "[1, 2, 3]" "[1]" "[]" "3/10"
      "[0, 1/2, 1, 3/2, 2]" "[2, 3, 1, 2, 3]" "[1]"]
  by (simp add: merge_eval)

subsection \<open>Spacing of the merged beats\<close>

text \<open>
  Claim C6: for every merge of two non-empty timelines with tolerance \<open>t\<close> that returns, any two
  beat times at different indices of the result are more than \<open>t\<close> seconds apart, and for
  \<open>t \<ge> 0\<close> the result is strictly increasing.
\<close>

theorem merge_beats_spacing:
  assumes "beat1 \<noteq> []" "beat2 \<noteq> []"
    and "merge_beats beat1 beat2 beat_positions1 downbeats1 downbeats2 tolerance
           = Inr (MergeTuple final_beats final_positions downbeats)"
  shows "(\<forall>i j. i < j \<and> j < length final_beats \<longrightarrow>
            tolerance < \<bar>final_beats ! j - final_beats ! i\<bar>)
         \<and> (0 \<le> tolerance \<longrightarrow> sorted_wrt (<) final_beats)"
proof -
  obtain filtered k where f: "filtered_beats tolerance
        (merged_beats beat1 beat2 beat_positions1 tolerance) = Inr filtered"
    and r: "MergeTuple final_beats final_positions downbeats =
        MergeTuple (map fst filtered)
          (map (beat_num (py_max beat_positions1 - int k + 1) (py_max beat_positions1))
             [0..<length filtered])
          (merged_downbeats (map fst filtered)
             (map (beat_num (py_max beat_positions1 - int k + 1) (py_max beat_positions1))
                [0..<length filtered]))"
    using merge_tuple_unfold [OF assms] by blast
  have fb: "final_beats = map fst filtered" using r by simp
  have ap: "sorted_wrt (apart tolerance) final_beats"
    using f fb filtered_beats_apart by (simp add: merged_beats_def)
  have "\<forall>i j. i < j \<and> j < length final_beats \<longrightarrow>
            tolerance < \<bar>final_beats ! j - final_beats ! i\<bar>"
    using sorted_wrt_apart_nth [OF ap] by fastforce
  moreover have "0 \<le> tolerance \<longrightarrow> sorted_wrt (<) final_beats"
    using sorted_wrt_apart_strict [OF ap] by blast
  ultimately show ?thesis by blast
qed

text \<open>
  Witness for C6: the merge of primary 1.0, 1.5, 2.0 with secondary 0.0, 0.5 at tolerance 0.3.
\<close>

theorem merge_beats_spacing_witness:
  "\<bar>[0, 1/2, 1, 3/2, 2] ! 1 - [0, 1/2, 1, 3/2, 2] ! 0\<bar> > (3/10::real)
   \<and> sorted_wrt (<) [0, 1/2, 1, 3/2, (2::real)]"
  using merge_beats_spacing [of "[1, 3/2, 2]" "[0, 1/2]" "[1, 2, 3]" "[1]" "[]" "3/10"
      "[0, 1/2, 1, 3/2, 2]" "[2, 3, 1, 2, 3]" "[1]"]
  by (simp add: merge_eval)

section \<open>Properties of \<^verbatim>\<open>time_to_beat_position\<close>\<close>

lemma strict_sorted_nth_le:
  "sorted_wrt (<) (xs::real list) \<Longrightarrow> i \<le> j \<Longrightarrow> j < length xs \<Longrightarrow> xs ! i \<le> xs ! j"
  by (cases "i = j") (auto simp: sorted_wrt_iff_nth_less less_imp_le)

lemma scan_beats_hit:
  assumes "sorted_wrt (<) (prev # bs)" "j < length bs" "(prev # bs) ! j < t" "t \<le> bs ! j"
  shows "scan_beats t i prev bs
           = Some (real (i + j) + (t - (prev # bs) ! j) / (bs ! j - (prev # bs) ! j))"
  using assms
proof (induction bs arbitrary: i prev j)
  case Nil
  then show ?case by simp
next
  case (Cons b rest)
  show ?case
  proof (cases j)
    case 0
    then show ?thesis using Cons.prems by simp
  next
    case (Suc j')
    have lt: "(b # rest) ! j' < t" using Cons.prems(3) Suc by simp
    have "sorted_wrt (<) (b # rest)" using Cons.prems(1) by simp
    then have "b \<le> (b # rest) ! j'"
      using strict_sorted_nth_le [of "b # rest" 0 j'] Cons.prems(2) Suc by simp
    then have nb: "\<not> b \<ge> t" using lt by simp
    have "scan_beats t (Suc i) b rest
            = Some (real (Suc i + j') + (t - (b # rest) ! j') / (rest ! j' - (b # rest) ! j'))"
      using Cons.IH [of b j' "Suc i"] Cons.prems Suc lt by simp
    then show ?thesis using nb Suc by simp
  qed
qed

lemma scan_beats_miss: "\<forall>b \<in> set bs. b < t \<Longrightarrow> scan_beats t i prev bs = None"
  by (induction bs arbitrary: i prev) auto

lemma time_to_beat_position_between:
  assumes "sorted_wrt (<) beats" "i + 1 < length beats" "beats ! i < t" "t \<le> beats ! (i + 1)"
  shows "time_to_beat_position t beats
           = real i + 1 + (t - beats ! i) / (beats ! (i + 1) - beats ! i)"
proof -
  obtain first rest where b: "beats = first # rest"
    using assms(2) by (cases beats) auto
  have "first \<le> beats ! i"
    using strict_sorted_nth_le [OF assms(1), of 0 i] assms(2) b by simp
  then have nf: "\<not> first \<ge> t" using assms(3) by simp
  have "scan_beats t 1 first rest
          = Some (real (1 + i) + (t - (first # rest) ! i) / (rest ! i - (first # rest) ! i))"
    using assms b by (intro scan_beats_hit) auto
  then show ?thesis using nf b by (simp add: time_to_beat_position_def)
qed

lemma time_to_beat_position_at_beat:
  assumes "sorted_wrt (<) beats" "0 < i" "i < length beats"
  shows "time_to_beat_position (beats ! i) beats = real i + 1"
proof -
  obtain k where k: "i = Suc k" using assms(2) by (cases i) auto
  have lt: "beats ! k < beats ! Suc k"
    using assms(1,3) k by (simp add: sorted_wrt_iff_nth_less)
  have "time_to_beat_position (beats ! Suc k) beats
          = real k + 1 + (beats ! Suc k - beats ! k) / (beats ! (k + 1) - beats ! k)"
    using time_to_beat_position_between [OF assms(1), of k "beats ! Suc k"] assms(3) k lt
    by simp
  then show ?thesis using lt k by simp
qed

lemma time_to_beat_position_before:
  "beats \<noteq> [] \<Longrightarrow> t \<le> beats ! 0 \<Longrightarrow> time_to_beat_position t beats = 0"
  by (cases beats) (auto simp: time_to_beat_position_def)

lemma time_to_beat_position_after:
  assumes "sorted_wrt (<) beats" "beats \<noteq> []" "last beats < t"
  shows "time_to_beat_position t beats =
           (if 2 \<le> length beats
            then real (length beats)
                   + (t - last beats) / (last beats - beats ! (length beats - 2))
            else 1)"
proof -
  obtain first rest where b: "beats = first # rest"
    using assms(2) by (cases beats) auto
  have all: "\<forall>x \<in> set beats. x < t"
  proof
    fix x assume "x \<in> set beats"
    then obtain n where n: "n < length beats" "x = beats ! n"
      by (auto simp: in_set_conv_nth)
    have "beats ! n \<le> beats ! (length beats - 1)"
      using strict_sorted_nth_le [OF assms(1), of n "length beats - 1"] n by simp
    then show "x < t" using n assms(2,3) by (simp add: last_conv_nth)
  qed
  have nf: "\<not> first \<ge> t" using all b by auto
  have miss: "scan_beats t 1 first rest = None"
    using all b by (intro scan_beats_miss) auto
  show ?thesis
  proof (cases "2 \<le> length beats")
    case True
    have "beats ! (length beats - 2) < beats ! (length beats - 1)"
      using assms(1) True by (simp add: sorted_wrt_iff_nth_less)
    then have "last beats - beats ! (length beats - 2) > 0"
      using assms(2) by (simp add: last_conv_nth)
    then show ?thesis using nf miss b True by (simp add: time_to_beat_position_def)
  next
    case False
    then have "rest = []" using b by (cases rest) auto
    then show ?thesis using nf b by (simp add: time_to_beat_position_def)
  qed
qed

text \<open>
  Claim C3, as stated, says that the position of the time \<open>beats[i]\<close> is \<open>i\<close> for every index.
  For the beats 0.0, 1.0 the time \<open>beats[1] = 1.0\<close> is mapped to 2: the loop stops at index 1
  and returns \<open>1 + (1.0 - 0.0) / (1.0 - 0.0)\<close>.
\<close>

theorem time_to_beat_position_counterexample:
  "[0, 1] \<noteq> ([]::real list) \<and> sorted_wrt (<) [0, 1::real]
   \<and> time_to_beat_position ([0, 1] ! 1) [0, 1] = 2
   \<and> time_to_beat_position ([0, 1] ! 1) [0, 1] \<noteq> real 1"
  by (simp add: time_to_beat_position_def)

text \<open>
  Claim C3, amended: for every non-empty, strictly increasing beat list, a time at or before
  \<open>beats[0]\<close> is mapped to 0; the time \<open>beats[i]\<close> with \<open>i \<ge> 1\<close> is mapped to \<open>i + 1\<close>; a time
  strictly after \<open>beats[i]\<close> and at or before \<open>beats[i+1]\<close> is mapped to
  \<open>(i + 1) + (time - beats[i]) / (beats[i+1] - beats[i])\<close>; a time past the last beat is mapped
  to \<open>len(beats) + (time - beats[-1]) / (beats[-1] - beats[-2])\<close> when there are at least two
  beats and to 1 when there is a single beat.
\<close>

theorem time_to_beat_position_cases:
  assumes "beats \<noteq> []" "sorted_wrt (<) beats"
  shows "(\<forall>t. t \<le> beats ! 0 \<longrightarrow> time_to_beat_position t beats = 0)
       \<and> (\<forall>i. 0 < i \<and> i < length beats \<longrightarrow>
              time_to_beat_position (beats ! i) beats = real i + 1)
       \<and> (\<forall>i t. i + 1 < length beats \<and> beats ! i < t \<and> t \<le> beats ! (i + 1) \<longrightarrow>
              time_to_beat_position t beats
                = real i + 1 + (t - beats ! i) / (beats ! (i + 1) - beats ! i))
       \<and> (\<forall>t. last beats < t \<and> 2 \<le> length beats \<longrightarrow>
              time_to_beat_position t beats
                = real (length beats)
                    + (t - last beats) / (last beats - beats ! (length beats - 2)))
       \<and> (\<forall>t. last beats < t \<and> length beats = 1 \<longrightarrow> time_to_beat_position t beats = 1)"
proof (intro conjI allI impI)
  fix t assume "t \<le> beats ! 0"
  then show "time_to_beat_position t beats = 0"
    using assms(1) by (rule time_to_beat_position_before [rotated])
next
  fix i assume "0 < i \<and> i < length beats"
  then show "time_to_beat_position (beats ! i) beats = real i + 1"
    using time_to_beat_position_at_beat [OF assms(2)] by blast
next
  fix i t assume "i + 1 < length beats \<and> beats ! i < t \<and> t \<le> beats ! (i + 1)"
  then show "time_to_beat_position t beats
                = real i + 1 + (t - beats ! i) / (beats ! (i + 1) - beats ! i)"
    using time_to_beat_position_between [OF assms(2)] by blast
next
  fix t assume "last beats < t \<and> 2 \<le> length beats"
  then show "time_to_beat_position t beats
                = real (length beats)
                    + (t - last beats) / (last beats - beats ! (length beats - 2))"
    using time_to_beat_position_after [OF assms(2) assms(1), of t] by simp
next
  fix t assume "last beats < t \<and> length beats = 1"
  then show "time_to_beat_position t beats = 1"
    using time_to_beat_position_after [OF assms(2) assms(1), of t] by simp
qed

text \<open>Witness for C3: the beats 0.0, 1.0, 3.0 queried at 0.0, 1.0, 2.0 and 5.0.\<close>

theorem time_to_beat_position_cases_witness:
  "[0, 1, 3] \<noteq> ([]::real list) \<and> sorted_wrt (<) [0, 1, 3::real]
   \<and> time_to_beat_position 0 [0, 1, 3] = 0
   \<and> time_to_beat_position 1 [0, 1, 3] = 2
   \<and> time_to_beat_position 2 [0, 1, 3] = 5/2
   \<and> time_to_beat_position 5 [0, 1, 3] = 4"
proof -
  have h: "[0, 1, 3] \<noteq> ([]::real list)" "sorted_wrt (<) [0, 1, 3::real]" by simp_all
  have c: "(\<forall>t. t \<le> [0, 1, 3] ! 0 \<longrightarrow> time_to_beat_position t [0, 1, 3] = 0)"
    "(\<forall>i. 0 < i \<and> i < length [0, 1, 3::real] \<longrightarrow>
              time_to_beat_position ([0, 1, 3] ! i) [0, 1, 3] = real i + 1)"
    "(\<forall>i t. i + 1 < length [0, 1, 3::real] \<and> [0, 1, 3] ! i < t \<and> t \<le> [0, 1, 3] ! (i + 1) \<longrightarrow>
              time_to_beat_position t [0, 1, 3]
                = real i + 1 + (t - [0, 1, 3] ! i) / ([0, 1, 3] ! (i + 1) - [0, 1, 3] ! i))"
    "(\<forall>t. last [0, 1, 3] < t \<and> 2 \<le> length [0, 1, 3::real] \<longrightarrow>
              time_to_beat_position t [0, 1, 3]
                = real (length [0, 1, 3::real])
                    + (t - last [0, 1, 3]) / (last [0, 1, 3] - [0, 1, 3] ! (length [0, 1, 3::real] - 2)))"
    using time_to_beat_position_cases [OF h] by blast+
  have "time_to_beat_position 0 [0, 1, 3] = 0" using c(1) by simp
  moreover have "time_to_beat_position 1 [0, 1, 3] = 2" using c(2) [rule_format, of 1] by simp
  moreover have "time_to_beat_position 2 [0, 1, 3] = 5/2" using c(3) [rule_format, of 1 2] by simp
  moreover have "time_to_beat_position 5 [0, 1, 3] = 4" using c(4) [rule_format, of 5] by simp
  ultimately show ?thesis using h by blast
qed

section \<open>Properties of \<^verbatim>\<open>create_tempo_track\<close>\<close>

lemma tempo_of_floor: "0 < x \<Longrightarrow> tempo_of x = \<lfloor>1000000 * x\<rfloor>"
  by (simp add: tempo_of_def py_int_def Let_def)

lemma tempo_of_nonneg: "0 < x \<Longrightarrow> 0 \<le> tempo_of x"
  by (simp add: tempo_of_floor)

lemma tempo_of_pos: "1 / 1000000 \<le> x \<Longrightarrow> 0 < tempo_of x"
proof -
  assume a: "1 / 1000000 \<le> x"
  then have "0 < x" by simp
  moreover have "1 \<le> 1000000 * x" using a by simp
  ultimately show ?thesis by (simp add: tempo_of_floor)
qed

lemma tempo_events_from_snoc:
  "tempo_events_from tick (ms @ [m]) =
     tempo_events_from tick ms
       @ (case m of SetTempo tempo t \<Rightarrow> [(tick + sum_times ms + t, tempo)] | _ \<Rightarrow> [])"
  by (induction tick ms rule: tempo_events_from.induct)
     (auto simp: sum_times_def split: midi_message.splits)

lemma sum_times_nonneg: "\<forall>m \<in> set ms. 0 \<le> msg_time m \<Longrightarrow> 0 \<le> sum_times ms"
  by (induction ms) (auto simp: sum_times_def)

lemma tempo_events_from_bound:
  "\<forall>m \<in> set ms. 0 \<le> msg_time m \<Longrightarrow> e \<in> set (tempo_events_from tick ms) \<Longrightarrow>
   fst e \<le> tick + sum_times ms"
proof (induction tick ms rule: tempo_events_from.induct)
  case (1 tick)
  then show ?case by simp
next
  case (2 tick tempo t ms)
  have "0 \<le> sum_times ms" using "2.prems"(1) by (simp add: sum_times_nonneg)
  then show ?case using 2 by (auto simp: sum_times_def)
qed (auto simp: sum_times_def)

lemma tempo_step_inv:
  assumes "tempo_track_inv tpb cur beats i track" "1 \<le> i" "i < length beats" "0 \<le> tpb"
  shows "tempo_track_inv tpb cur beats (Suc i) (tempo_step tpb cur beats track i)"
proof (cases "beats ! i - beats ! (i - 1) \<le> 0")
  case True
  then have same: "tempo_step tpb cur beats track i = track"
    by (simp add: tempo_step_def Let_def)
  have "cur + (int i - 1) * tpb \<le> cur + (int (Suc i) - 1) * tpb"
    using assms(4) by (simp add: algebra_simps)
  then show ?thesis using assms(1) same by (simp add: tempo_track_inv_def)
next
  case False
  define tick where "tick = cur + (int i - 1) * tpb"
  define x where "x = beats ! i - beats ! (i - 1)"
  have xpos: "0 < x" using False by (simp add: x_def)
  have src: "interval_source beats x"
    using assms(2,3) by (auto simp: interval_source_def x_def)
  have step: "tempo_step tpb cur beats track i
                = track @ [SetTempo (tempo_of x) (tick - sum_times track)]"
    using False by (simp add: tempo_step_def Let_def tick_def x_def)
  have le: "sum_times track \<le> tick"
    using assms(1) by (simp add: tempo_track_inv_def tick_def)
  have times: "\<forall>m \<in> set track. 0 \<le> msg_time m"
    using assms(1) by (simp add: tempo_track_inv_def)
  have ev: "tempo_events (track @ [SetTempo (tempo_of x) (tick - sum_times track)])
              = tempo_events track @ [(tick, tempo_of x)]"
    by (simp add: tempo_events_def tempo_events_from_snoc)
  have bound: "\<forall>e \<in> set (tempo_events track). fst e \<le> tick"
  proof
    fix e assume "e \<in> set (tempo_events track)"
    then have "e \<in> set (tempo_events_from 0 track)" by (simp add: tempo_events_def)
    then have "fst e \<le> 0 + sum_times track"
      by (rule tempo_events_from_bound [OF times])
    then show "fst e \<le> tick" using le by simp
  qed
  have c1: "\<forall>m \<in> set (track @ [SetTempo (tempo_of x) (tick - sum_times track)]). 0 \<le> msg_time m"
    using times le by auto
  have c2: "sum_times (track @ [SetTempo (tempo_of x) (tick - sum_times track)])
              \<le> cur + (int (Suc i) - 1) * tpb"
    using assms(4) by (simp add: sum_times_def tick_def algebra_simps)
  have c3: "sorted (map fst (tempo_events track @ [(tick, tempo_of x)]))"
    using assms(1) bound by (auto simp: tempo_track_inv_def sorted_append)
  have c4: "\<forall>e \<in> set (tempo_events track @ [(tick, tempo_of x)]).
              \<exists>y. 0 < y \<and> interval_source beats y \<and> snd e = tempo_of y"
    using assms(1) xpos src by (auto simp: tempo_track_inv_def)
  show ?thesis
    unfolding step tempo_track_inv_def ev using c1 c2 c3 c4 by blast
qed

lemma tempo_loop_inv:
  assumes "0 \<le> tpb" "tempo_track_inv tpb cur beats 1 track" "n \<le> length beats"
  shows "tempo_track_inv tpb cur beats (max 1 n)
           (foldl (tempo_step tpb cur beats) track [1..<n])"
  using assms(3)
proof (induction n)
  case 0
  then show ?case using assms(2) by simp
next
  case (Suc n)
  show ?case
  proof (cases "n = 0")
    case True
    then show ?thesis using assms(2) by simp
  next
    case False
    then have n1: "1 \<le> n" by simp
    have ih: "tempo_track_inv tpb cur beats n (foldl (tempo_step tpb cur beats) track [1..<n])"
      using Suc n1 by (simp add: max_def)
    have "tempo_track_inv tpb cur beats (Suc n)
            (tempo_step tpb cur beats (foldl (tempo_step tpb cur beats) track [1..<n]) n)"
      using tempo_step_inv [OF ih n1 _ assms(1)] Suc.prems by simp
    then show ?thesis using n1 by (simp add: max_def)
  qed
qed

lemma create_tempo_track_inv:
  assumes "0 \<le> tpb" "beats \<noteq> []"
  shows "\<exists>track cur. create_tempo_track tpb beats = Inr (track @ [EndOfTrack 0])
           \<and> tempo_track_inv tpb cur beats (max 1 (length beats)) track"
proof (cases "beats ! 0 > 0")
  case True
  have src: "interval_source beats (beats ! 0)" by (simp add: interval_source_def)
  have "tempo_track_inv tpb tpb beats 1
          ([TrackName ''Tempo Track'' 0] @ [SetTempo (tempo_of (beats ! 0)) 0])"
    using True src assms(1)
    by (auto simp: tempo_track_inv_def tempo_events_def sum_times_def)
  then have "tempo_track_inv tpb tpb beats (max 1 (length beats))
          (foldl (tempo_step tpb tpb beats)
             ([TrackName ''Tempo Track'' 0] @ [SetTempo (tempo_of (beats ! 0)) 0])
             [1..<length beats])"
    using tempo_loop_inv [OF assms(1)] by blast
  then show ?thesis using True assms(2) by (auto simp: create_tempo_track_def Let_def)
next
  case False
  have "tempo_track_inv tpb 0 beats 1 [TrackName ''Tempo Track'' 0]"
    by (simp add: tempo_track_inv_def tempo_events_def sum_times_def)
  then have "tempo_track_inv tpb 0 beats (max 1 (length beats))
          (foldl (tempo_step tpb 0 beats) [TrackName ''Tempo Track'' 0] [1..<length beats])"
    using tempo_loop_inv [OF assms(1)] by blast
  then show ?thesis using False assms(2) by (auto simp: create_tempo_track_def Let_def)
qed

lemmas tempo_eval = create_tempo_track_def tempo_step_def tempo_of_def py_int_def sum_times_def
  tempo_events_def Let_def

text \<open>
  Claim C7, as stated, says that every emitted microseconds-per-beat value is a positive
  integer. For the beats 0.0 and 0.0000005 the interval is half a microsecond,
  \<^verbatim>\<open>int(60_000_000 / (60.0 / interval))\<close> is \<^verbatim>\<open>int(0.5)\<close>, and the tempo event carries 0.
\<close>

theorem create_tempo_track_counterexample:
  "create_tempo_track 480 [0, 1 / 2000000]
     = Inr [TrackName ''Tempo Track'' 0, SetTempo 0 0, EndOfTrack 0]
   \<and> tempo_events [TrackName ''Tempo Track'' 0, SetTempo 0 0, EndOfTrack 0] = [(0, 0)]
   \<and> \<not> (0::int) < snd (0::int, 0::int)"
  by (simp add: tempo_eval)

text \<open>
  Claim C7, amended: for every non-empty beat list and every non-negative ticks-per-beat
  value the builder returns a track, its tempo events are monotonically non-decreasing in
  absolute tick, and every emitted microseconds-per-beat value (including the synthesized
  lead-in tempo) is a non-negative integer; all of them are positive when the first beat
  time, if positive, and every positive inter-beat interval are at least one microsecond.
\<close>

theorem create_tempo_track_events:
  assumes "0 \<le> ticks_per_beat" "beats \<noteq> []"
  shows "\<exists>track. create_tempo_track ticks_per_beat beats = Inr track
           \<and> sorted (map fst (tempo_events track))
           \<and> (\<forall>e \<in> set (tempo_events track). 0 \<le> snd e)
           \<and> ((beats ! 0 \<le> 0 \<or> 1 / 1000000 \<le> beats ! 0)
               \<and> (\<forall>i. 1 \<le> i \<and> i < length beats \<and> beats ! (i - 1) < beats ! i \<longrightarrow>
                      1 / 1000000 \<le> beats ! i - beats ! (i - 1)) \<longrightarrow>
                (\<forall>e \<in> set (tempo_events track). 0 < snd e))"
proof -
  obtain track cur where t: "create_tempo_track ticks_per_beat beats = Inr (track @ [EndOfTrack 0])"
    and inv: "tempo_track_inv ticks_per_beat cur beats (max 1 (length beats)) track"
    using create_tempo_track_inv [OF assms] by blast
  have ev: "tempo_events (track @ [EndOfTrack 0]) = tempo_events track"
    by (simp add: tempo_events_def tempo_events_from_snoc)
  have s: "sorted (map fst (tempo_events track))"
    using inv by (simp add: tempo_track_inv_def)
  have src: "\<forall>e \<in> set (tempo_events track).
               \<exists>x. 0 < x \<and> interval_source beats x \<and> snd e = tempo_of x"
    using inv by (simp add: tempo_track_inv_def)
  have nn: "\<forall>e \<in> set (tempo_events track). 0 \<le> snd e"
    using src tempo_of_nonneg by fastforce
  have pos: "(beats ! 0 \<le> 0 \<or> 1 / 1000000 \<le> beats ! 0)
               \<and> (\<forall>i. 1 \<le> i \<and> i < length beats \<and> beats ! (i - 1) < beats ! i \<longrightarrow>
                      1 / 1000000 \<le> beats ! i - beats ! (i - 1)) \<longrightarrow>
                (\<forall>e \<in> set (tempo_events track). 0 < snd e)"
  proof
    assume h: "(beats ! 0 \<le> 0 \<or> 1 / 1000000 \<le> beats ! 0)
               \<and> (\<forall>i. 1 \<le> i \<and> i < length beats \<and> beats ! (i - 1) < beats ! i \<longrightarrow>
                      1 / 1000000 \<le> beats ! i - beats ! (i - 1))"
    have "\<forall>x. 0 < x \<and> interval_source beats x \<longrightarrow> 1 / 1000000 \<le> x"
      using h by (auto simp: interval_source_def)
    then show "\<forall>e \<in> set (tempo_events track). 0 < snd e"
      using src tempo_of_pos by fastforce
  qed
  show ?thesis using t ev s nn pos by auto
qed

text \<open>
  Witness for C7: the beats 0.5, 1.0, 1.0, 2.0 at 480 ticks per beat give the lead-in tempo at
  tick 0, skip the zero interval, and emit tempo events at ticks 480 and 1440.
\<close>

theorem create_tempo_track_events_witness:
  "(0::int) \<le> 480 \<and> [1/2, 1, 1, 2] \<noteq> ([]::real list)
   \<and> create_tempo_track 480 [1/2, 1, 1, 2]
       = Inr [TrackName ''Tempo Track'' 0, SetTempo 500000 0, SetTempo 500000 480,
              SetTempo 1000000 960, EndOfTrack 0]
   \<and> tempo_events [TrackName ''Tempo Track'' 0, SetTempo 500000 0, SetTempo 500000 480,
              SetTempo 1000000 960, EndOfTrack 0] = [(0, 500000), (480, 500000), (1440, 1000000)]
   \<and> sorted (map fst [(0::int, 500000::int), (480, 500000), (1440, 1000000)])"
  using create_tempo_track_events [of 480 "[1/2, 1, 1, 2]"]
  by (simp add: tempo_eval)

section \<open>Properties of \<^verbatim>\<open>sample_drum_loops\<close>\<close>

lemmas drum_eval = sample_drum_loops_def get_target_beats_def py_choice_def to_message_def
  mid_category_def mid_sampling_order_def demo_store_def demo_library_def fragment_events_def
  demo_target_def Let_def

lemma emit_start_started:
  "track \<noteq> [] \<Longrightarrow>
   emit_start prefix_beat frag (store, track) = (store, track @ map (to_message store) frag)"
  by (induction frag arbitrary: track) auto

lemma emit_start_fresh:
  "emit_start prefix_beat frag (store, []) =
     (case frag of
        [] \<Rightarrow> (store, [])
      | a # rest \<Rightarrow>
          (let store' = store(a := (store a)\<lparr>ev_time := ev_time (store a) + 480 * (prefix_beat + 1)\<rparr>)
           in (store', map (to_message store') frag)))"
  by (cases frag) (auto simp: Let_def emit_start_started)

lemma emit_start_store:
  "fst (emit_start prefix_beat frag (store, [])) =
     (case frag of
        [] \<Rightarrow> store
      | a # rest \<Rightarrow> store(a := (store a)\<lparr>ev_time := ev_time (store a) + 480 * (prefix_beat + 1)\<rparr>))"
  by (cases frag) (auto simp: Let_def emit_start_fresh)

lemma emit_start_track:
  "snd (emit_start prefix_beat frag (store, []))
     = map (to_message (fst (emit_start prefix_beat frag (store, [])))) frag"
  by (cases frag) (auto simp: Let_def emit_start_fresh)

lemma sample_drum_loops_final_store:
  assumes "sample_drum_loops bpb rng tracks lib store prefix_beat = Some (Inr (track, store'))"
  shows "store' =
           (if 0 < bpb * 4 + prefix_beat + 1
            then (case py_choice (rng 0) (lib_start lib) of
                    Inl e \<Rightarrow> store
                  | Inr drum_event \<Rightarrow> fst (emit_start prefix_beat drum_event (store, [])))
            else store)"
  using assms
  by (auto simp: sample_drum_loops_def Let_def
      split: if_splits sum.splits option.splits prod.splits)

text \<open>
  Two concrete runs with the one-fragment-per-category library: on the twelve-beat target
  with one beat per bar the start, one regular mid and the end fragment are emitted; on a
  target without any tempo event only the start fragment is.
\<close>

lemma demo_run:
  "sample_drum_loops 1 (\<lambda>n. 0) demo_target demo_library demo_store 0
     = Some (Inr ([NoteMessage ''note_on'' 36 100 480, NoteMessage ''note_on'' 37 100 0,
                   NoteMessage ''note_on'' 40 100 0],
                  demo_store(0 := (demo_store 0)\<lparr>ev_time := 480\<rparr>)))"
  by (simp add: drum_eval mid_loop.simps)

lemma demo_run_empty_grid:
  "sample_drum_loops 4 (\<lambda>n. 0) [[TimeSignature 4 4 0]] demo_library demo_store 0
     = Some (Inr ([NoteMessage ''note_on'' 36 100 480],
                  demo_store(0 := (demo_store 0)\<lparr>ev_time := 480\<rparr>)))"
  by (simp add: drum_eval mid_loop.simps)

subsection \<open>The fragment library after an assembly\<close>

text \<open>
  Claim C8, as stated, says that assembling a drum track leaves every fragment of the library
  unchanged. In the twelve-beat run the start fragment of the library holds an event with
  offset 0 before the call and with offset 480 after it.
\<close>

theorem sample_drum_loops_store_counterexample:
  "sample_drum_loops 1 (\<lambda>n. 0) demo_target demo_library demo_store 0
     = Some (Inr ([NoteMessage ''note_on'' 36 100 480, NoteMessage ''note_on'' 37 100 0,
                   NoteMessage ''note_on'' 40 100 0],
                  demo_store(0 := (demo_store 0)\<lparr>ev_time := 480\<rparr>)))
   \<and> [0] \<in> set (lib_start demo_library)
   \<and> fragment_events (demo_store(0 := (demo_store 0)\<lparr>ev_time := 480\<rparr>)) [0]
       \<noteq> fragment_events demo_store [0]"
  using demo_run by (simp add: fragment_events_def demo_library_def demo_store_def)

text \<open>
  Claim C8, amended: an assembly that returns changes the loaded fragments in one place only.
  When the START region is entered and the chosen start fragment is non-empty, the first event
  of that fragment has its offset increased in place by \<open>480 * (prefixBeat + 1)\<close> ticks; every
  other event, and so every fragment that does not contain that event, is left unchanged. When
  the START region is not entered, or the chosen start fragment is empty, nothing changes.
\<close>

theorem sample_drum_loops_store:
  assumes "sample_drum_loops beats_per_bar rng tracks lib store prefix_beat
             = Some (Inr (track, store'))"
  shows "(\<not> 0 < beats_per_bar * 4 + prefix_beat + 1 \<longrightarrow> store' = store)
       \<and> (0 < beats_per_bar * 4 + prefix_beat + 1 \<longrightarrow>
            (\<exists>drum_event. py_choice (rng 0) (lib_start lib) = Inr drum_event
               \<and> store' =
                   (case drum_event of
                      [] \<Rightarrow> store
                    | a # rest \<Rightarrow>
                        store(a := (store a)\<lparr>ev_time :=
                                 ev_time (store a) + 480 * (prefix_beat + 1)\<rparr>))
               \<and> (\<forall>frag. (drum_event = [] \<or> hd drum_event \<notin> set frag) \<longrightarrow>
                     fragment_events store' frag = fragment_events store frag)))"
proof (intro conjI impI)
  assume "\<not> 0 < beats_per_bar * 4 + prefix_beat + 1"
  then show "store' = store"
    using sample_drum_loops_final_store [OF assms] by simp
next
  assume s: "0 < beats_per_bar * 4 + prefix_beat + 1"
  then obtain drum_event where c: "py_choice (rng 0) (lib_start lib) = Inr drum_event"
    using assms by (auto simp: sample_drum_loops_def Let_def split: sum.splits)
  have st: "store' =
                   (case drum_event of
                      [] \<Rightarrow> store
                    | a # rest \<Rightarrow>
                        store(a := (store a)\<lparr>ev_time :=
                                 ev_time (store a) + 480 * (prefix_beat + 1)\<rparr>))"
    using sample_drum_loops_final_store [OF assms] s c by (simp add: emit_start_store)
  have fr: "\<forall>frag. (drum_event = [] \<or> hd drum_event \<notin> set frag) \<longrightarrow>
                     fragment_events store' frag = fragment_events store frag"
    using st by (cases drum_event) (auto simp: fragment_events_def)
  show "\<exists>drum_event. py_choice (rng 0) (lib_start lib) = Inr drum_event
               \<and> store' =
                   (case drum_event of
                      [] \<Rightarrow> store
                    | a # rest \<Rightarrow>
                        store(a := (store a)\<lparr>ev_time :=
                                 ev_time (store a) + 480 * (prefix_beat + 1)\<rparr>))
               \<and> (\<forall>frag. (drum_event = [] \<or> hd drum_event \<notin> set frag) \<longrightarrow>
                     fragment_events store' frag = fragment_events store frag)"
    using c st fr by blast
qed

text \<open>
  Witness for C8: in the twelve-beat run the event at address 0 is shifted by 480 and the
  regular fragment \<open>[1]\<close> reads the same before and after.
\<close>

theorem sample_drum_loops_store_witness:
  "sample_drum_loops 1 (\<lambda>n. 0) demo_target demo_library demo_store 0
     = Some (Inr ([NoteMessage ''note_on'' 36 100 480, NoteMessage ''note_on'' 37 100 0,
                   NoteMessage ''note_on'' 40 100 0],
                  demo_store(0 := (demo_store 0)\<lparr>ev_time := 480\<rparr>)))
   \<and> py_choice 0 (lib_start demo_library) = Inr [0]
   \<and> fragment_events (demo_store(0 := (demo_store 0)\<lparr>ev_time := 480\<rparr>)) [1]
       = fragment_events demo_store [1]"
  using sample_drum_loops_store [OF demo_run] demo_run
  by (simp add: py_choice_def demo_library_def fragment_events_def)

subsection \<open>A target without beats\<close>

text \<open>
  Claim C9, as stated, says that a target grid with fewer than one beat aborts the assembly
  with an error. For a target whose only track holds a time signature the grid is empty, and
  the call returns a drum track with the start fragment's event.
\<close>

theorem sample_drum_loops_empty_grid_counterexample:
  "length (get_target_beats ([[TimeSignature 4 4 0]] @ [[]])) < 1
   \<and> sample_drum_loops 4 (\<lambda>n. 0) [[TimeSignature 4 4 0]] demo_library demo_store 0
       = Some (Inr ([NoteMessage ''note_on'' 36 100 480],
                    demo_store(0 := (demo_store 0)\<lparr>ev_time := 480\<rparr>)))
   \<and> sample_drum_loops 4 (\<lambda>n. 0) [[TimeSignature 4 4 0]] demo_library demo_store 0
       \<noteq> Some (Inl IndexError)"
  using demo_run_empty_grid by (simp add: get_target_beats_def)

text \<open>
  Claim C9, amended: a target grid with fewer than one beat is not an error of the assembly.
  With a non-negative beats-per-bar value the MID and END regions are skipped; when the
  START region is entered (\<open>4 * beatsPerBar + prefixBeat + 1 > 0\<close>) and the start category
  is non-empty, the drum track consists of the chosen start fragment's events and the output
  is written; when it is entered with an empty start category the draw raises IndexError;
  when it is not entered an empty drum track is written.
\<close>

theorem sample_drum_loops_empty_grid:
  assumes "length (get_target_beats (tracks @ [[]])) < 1" "0 \<le> beats_per_bar"
  shows "(0 < beats_per_bar * 4 + prefix_beat + 1 \<and> lib_start lib \<noteq> [] \<longrightarrow>
            (\<exists>drum_event store'.
               py_choice (rng 0) (lib_start lib) = Inr drum_event
             \<and> sample_drum_loops beats_per_bar rng tracks lib store prefix_beat
                 = Some (Inr (map (to_message store') drum_event, store'))))
       \<and> (0 < beats_per_bar * 4 + prefix_beat + 1 \<and> lib_start lib = [] \<longrightarrow>
            sample_drum_loops beats_per_bar rng tracks lib store prefix_beat
              = Some (Inl IndexError))
       \<and> (\<not> 0 < beats_per_bar * 4 + prefix_beat + 1 \<longrightarrow>
            sample_drum_loops beats_per_bar rng tracks lib store prefix_beat
              = Some (Inr ([], store)))"
proof -
  have len: "length (get_target_beats (tracks @ [[]])) = 0" using assms(1) by simp
  have loop: "\<And>st cur dr tr. 0 \<le> cur \<Longrightarrow>
      mid_loop lib st rng (beats_per_bar * 2) (0 - beats_per_bar * 5) cur 0 dr tr
        = Some (Inr (cur, dr, tr))"
    using assms(2) by (subst mid_loop.simps) simp
  show ?thesis
  proof (intro conjI impI)
    assume a: "0 < beats_per_bar * 4 + prefix_beat + 1 \<and> lib_start lib \<noteq> []"
    define drum_event where "drum_event = lib_start lib ! (rng 0 mod length (lib_start lib))"
    define store' where "store' = fst (emit_start prefix_beat drum_event (store, []))"
    have c: "py_choice (rng 0) (lib_start lib) = Inr drum_event"
      using a by (simp add: py_choice_def drum_event_def)
    have e: "emit_start prefix_beat drum_event (store, [])
               = (store', map (to_message store') drum_event)"
      using emit_start_track [of prefix_beat drum_event store]
      by (simp add: store'_def prod_eq_iff)
    have "sample_drum_loops beats_per_bar rng tracks lib store prefix_beat
                 = Some (Inr (map (to_message store') drum_event, store'))"
      using a c e len loop by (simp add: sample_drum_loops_def Let_def)
    then show "\<exists>drum_event store'.
               py_choice (rng 0) (lib_start lib) = Inr drum_event
             \<and> sample_drum_loops beats_per_bar rng tracks lib store prefix_beat
                 = Some (Inr (map (to_message store') drum_event, store'))"
      using c by blast
  next
    assume "0 < beats_per_bar * 4 + prefix_beat + 1 \<and> lib_start lib = []"
    then show "sample_drum_loops beats_per_bar rng tracks lib store prefix_beat
              = Some (Inl IndexError)"
      by (simp add: sample_drum_loops_def Let_def py_choice_def)
  next
    assume "\<not> 0 < beats_per_bar * 4 + prefix_beat + 1"
    then show "sample_drum_loops beats_per_bar rng tracks lib store prefix_beat
              = Some (Inr ([], store))"
      using len loop by (simp add: sample_drum_loops_def Let_def)
  qed
qed

text \<open>
  Witness for C9: the target with only a time signature, four beats per bar, prefix 0.
\<close>

theorem sample_drum_loops_empty_grid_witness:
  "length (get_target_beats ([[TimeSignature 4 4 0]] @ [[]])) < 1 \<and> (0::int) \<le> 4
   \<and> lib_start demo_library \<noteq> []
   \<and> (\<exists>drum_event store'.
         py_choice 0 (lib_start demo_library) = Inr drum_event
       \<and> sample_drum_loops 4 (\<lambda>n. 0) [[TimeSignature 4 4 0]] demo_library demo_store 0
           = Some (Inr (map (to_message store') drum_event, store')))"
  using sample_drum_loops_empty_grid
    [of "[[TimeSignature 4 4 0]]" 4 0 demo_library "\<lambda>n. 0" demo_store]
  by (simp add: get_target_beats_def demo_library_def)

end
